theory Spec2Isabelle
  imports Main "HOL-Library.Word"
begin

section \<open>Data model of the wallet-readiness coordinator\<close>

text \<open>
  The coordinator is the React component \<open>SmartAccountProvider\<close> of
  \<open>client/src/contexts/SmartAccountContext.tsx\<close>. Its React state, its three refs and the
  part of the JavaScript runtime it talks to (promises, timers, the clock, the suspended
  calls of the async function \<open>initSmartAccount\<close>) are one record; every function of the
  component is a function on that record.
\<close>

datatype SmartAccountStatus = Idle | Waiting_for_wallet | Initializing | Ready | Error

text \<open>What JavaScript can throw: an \<open>Error\<close> instance with its message, or any other value.\<close>

datatype thrown = ErrorObj string | NonError

datatype promise_state = Pending | Fulfilled | Rejected thrown

type_synonym promise_id = nat
type_synonym SmartAccountClient = nat
type_synonym Address = string

record wallet =
  walletClientType :: string
  address :: Address

text \<open>A timer of \<open>setTimeout\<close>: its id, its deadline and the promise its callback rejects.\<close>

record timer =
  timer_id :: nat
  timer_deadline :: nat
  timer_promise :: promise_id

text \<open>
  What a callback closes over: the values of \<open>usePrivy\<close> and \<open>useWallets\<close> and the React
  state as they were at the render that created the callback.
\<close>

record closure =
  ready :: bool
  authenticated :: bool
  user :: "string option"
  wallets :: "wallet list"
  cl_smartAccountClient :: "SmartAccountClient option"
  cl_smartAccountAddress :: "Address option"
  cl_isLoading :: bool

text \<open>
  A call of the async function \<open>initSmartAccount\<close>: suspended at the await of the watcher's
  promise (line 112), suspended in the delegate's awaits (lines 161 to 214), or completed;
  \<open>Inl\<close> is a rejection of the promise the call returned, \<open>Inr None\<close> the result null.
\<close>

datatype call_state =
    AwaitingWatcher closure promise_id
  | AwaitingDelegate closure wallet
  | Completed "thrown + (SmartAccountClient \<times> Address) option"

record provider_state =
  smartAccountClient :: "SmartAccountClient option"
  smartAccountAddress :: "Address option"
  isLoading :: bool
  error :: "string option"
  smartAccountStatus :: SmartAccountStatus
  walletReadyPromiseRef :: "promise_id option"
  walletReadyResolveRef :: "promise_id option"
  timeoutIdRef :: "nat option"
  promises :: "promise_state list"
  timers :: "timer list"
  next_timer :: nat
  now :: nat
  calls :: "call_state list"
  effect_cleanup :: bool

definition WALLET_READY_TIMEOUT :: nat where
  "WALLET_READY_TIMEOUT = 25000"

definition timeout_message :: string where
  "timeout_message = ''Wallet creation timeout. Please try again or refresh the page.''"

definition initial_state :: provider_state where
  "initial_state =
     \<lparr>smartAccountClient = None, smartAccountAddress = None, isLoading = False,
      error = None, smartAccountStatus = Idle,
      walletReadyPromiseRef = None, walletReadyResolveRef = None, timeoutIdRef = None,
      promises = [], timers = [], next_timer = 1, now = 0, calls = [],
      effect_cleanup = False\<rparr>"

text \<open>The closure of a render: the hooks' values and a snapshot of the React state.\<close>

definition render :: "bool \<Rightarrow> bool \<Rightarrow> string option \<Rightarrow> wallet list \<Rightarrow> provider_state \<Rightarrow> closure" where
  "render r a u ws s =
     \<lparr>ready = r, authenticated = a, user = u, wallets = ws,
      cl_smartAccountClient = smartAccountClient s,
      cl_smartAccountAddress = smartAccountAddress s,
      cl_isLoading = isLoading s\<rparr>"

section \<open>The runtime: settling promises, clearing timers\<close>

text \<open>\<open>resolve()\<close> and \<open>reject(e)\<close> settle a pending promise and do nothing to a settled one.\<close>

definition settle :: "promise_id \<Rightarrow> promise_state \<Rightarrow> promise_state list \<Rightarrow> promise_state list" where
  "settle p st ps = (if p < length ps \<and> ps ! p = Pending then ps[p := st] else ps)"

definition clearTimeout :: "nat \<Rightarrow> timer list \<Rightarrow> timer list" where
  "clearTimeout tid ts = filter (\<lambda>t. timer_id t \<noteq> tid) ts"

definition message_or :: "thrown \<Rightarrow> string \<Rightarrow> string" where
  "message_or t fallback = (case t of ErrorObj m \<Rightarrow> m | NonError \<Rightarrow> fallback)"

section \<open>The watcher (lines 59 to 93)\<close>

definition clearWalletReadinessWatcher :: "provider_state \<Rightarrow> provider_state" where
  "clearWalletReadinessWatcher s =
     (let s1 = (case timeoutIdRef s of
                  Some tid \<Rightarrow> s\<lparr>timers := clearTimeout tid (timers s), timeoutIdRef := None\<rparr>
                | None \<Rightarrow> s)
      in s1\<lparr>walletReadyPromiseRef := None, walletReadyResolveRef := None\<rparr>)"

text \<open>The callback handed to \<open>setTimeout\<close> (lines 80 to 88); \<open>p\<close> is the promise whose
  \<open>reject\<close> it closes over.\<close>

definition timeout_callback :: "promise_id \<Rightarrow> provider_state \<Rightarrow> provider_state" where
  "timeout_callback p s =
     (let timeoutError = ErrorObj timeout_message;
          s1 = s\<lparr>smartAccountStatus := Error\<rparr>;
          s2 = s1\<lparr>error := Some timeout_message\<rparr>;
          s3 = s2\<lparr>promises := settle p (Rejected timeoutError) (promises s2)\<rparr>
      in clearWalletReadinessWatcher s3)"

definition createWalletReadinessWatcher :: "provider_state \<Rightarrow> provider_state" where
  "createWalletReadinessWatcher s =
     (let s1 = clearWalletReadinessWatcher s;
          s2 = s1\<lparr>smartAccountStatus := Waiting_for_wallet\<rparr>;
          p = length (promises s2);
          s3 = s2\<lparr>promises := promises s2 @ [Pending], walletReadyResolveRef := Some p\<rparr>;
          tid = next_timer s3;
          s4 = s3\<lparr>timers := timers s3 @
                     [\<lparr>timer_id = tid, timer_deadline = now s3 + WALLET_READY_TIMEOUT,
                       timer_promise = p\<rparr>],
                  next_timer := tid + 1, timeoutIdRef := Some tid\<rparr>
      in s4\<lparr>walletReadyPromiseRef := Some p\<rparr>)"

section \<open>initSmartAccount (lines 95 to 235)\<close>

text \<open>
  The SmartAccountInitializer is the code of lines 137 to 214: calls into viem, permissionless
  and the wallet's provider. What those calls answer is the environment's choice, so it is
  an input: for each call in the source's order, what it threw or what it returned. Between
  line 135 and line 217 the coordinator writes none of its own state, so the awaits of that
  stretch are one suspension.
\<close>

record delegate_io =
  createPublicClient_throws :: "thrown option"
  getEthereumProvider_throws :: "thrown option"
  eth_accounts :: "thrown + string list option"
  createWalletClient_throws :: "thrown option"
  toSimpleSmartAccount :: "thrown + Address"
  createPimlicoClient_throws :: "thrown option"
  createSmartAccountClient :: "thrown + SmartAccountClient"

definition delegate_steps :: "delegate_io \<Rightarrow> thrown + (SmartAccountClient \<times> Address)" where
  "delegate_steps io =
     (case createPublicClient_throws io of Some t \<Rightarrow> Inl t | None \<Rightarrow>
     (case getEthereumProvider_throws io of Some t \<Rightarrow> Inl t | None \<Rightarrow>
     (case eth_accounts io of Inl t \<Rightarrow> Inl t | Inr accounts \<Rightarrow>
     (if accounts = None \<or> accounts = Some [] then Inl (ErrorObj ''No accounts found in wallet'')
      else
     (case createWalletClient_throws io of Some t \<Rightarrow> Inl t | None \<Rightarrow>
     (case toSimpleSmartAccount io of Inl t \<Rightarrow> Inl t | Inr account_address \<Rightarrow>
     (case createPimlicoClient_throws io of Some t \<Rightarrow> Inl t | None \<Rightarrow>
     (case createSmartAccountClient io of Inl t \<Rightarrow> Inl t
      | Inr client \<Rightarrow> Inr (client, account_address)))))))))"

text \<open>The predicate of lines 126, 243 and 264.\<close>

definition isPrivyWallet :: "wallet \<Rightarrow> bool" where
  "isPrivyWallet w = (walletClientType w = ''privy'')"

text \<open>The catch and the finally of the second try (lines 227 to 234).\<close>

definition init_catch ::
  "thrown \<Rightarrow> provider_state \<Rightarrow> provider_state \<times> (thrown + (SmartAccountClient \<times> Address) option)" where
  "init_catch err s =
     (let s1 = s\<lparr>error := Some (message_or err ''Failed to initialize smart account'')\<rparr>;
          s2 = s1\<lparr>smartAccountStatus := Error\<rparr>
      in (s2, Inr None))"

definition init_finally :: "provider_state \<Rightarrow> provider_state" where
  "init_finally s = s\<lparr>isLoading := False\<rparr>"

text \<open>The try block from line 135 on: the delegate, then lines 217 to 226.\<close>

definition init_try_delegate ::
  "delegate_io \<Rightarrow> provider_state \<Rightarrow> provider_state \<times> (thrown + (SmartAccountClient \<times> Address) option)" where
  "init_try_delegate io s =
     (case delegate_steps io of
        Inl t \<Rightarrow> (s, Inl t)
      | Inr (client, account_address) \<Rightarrow>
          (let s1 = clearWalletReadinessWatcher s;
               s2 = s1\<lparr>smartAccountClient := Some client\<rparr>;
               s3 = s2\<lparr>smartAccountAddress := Some account_address\<rparr>;
               s4 = s3\<lparr>smartAccountStatus := Ready\<rparr>
           in (s4, Inr (Some (client, account_address)))))"

definition init_resume_delegate :: "delegate_io \<Rightarrow> provider_state \<Rightarrow> provider_state \<times> call_state" where
  "init_resume_delegate io s =
     (let (s1, r1) = init_try_delegate io s;
          (s2, r2) = (case r1 of Inl t \<Rightarrow> init_catch t s1 | Inr v \<Rightarrow> (s1, Inr v))
      in (init_finally s2, Completed r2))"

text \<open>Lines 121 to 133: after the wait, up to the first await of the delegate.\<close>

definition init_after_wait :: "closure \<Rightarrow> provider_state \<Rightarrow> provider_state \<times> call_state" where
  "init_after_wait cl s =
     (let s1 = s\<lparr>isLoading := True\<rparr>;
          s2 = s1\<lparr>smartAccountStatus := Initializing\<rparr>;
          s3 = s2\<lparr>error := None\<rparr>
      in case find isPrivyWallet (wallets cl) of
           None \<Rightarrow>
             (let s4 = s3\<lparr>isLoading := False\<rparr>;
                  s5 = s4\<lparr>smartAccountStatus := Waiting_for_wallet\<rparr>
              in (init_finally s5, Completed (Inr None)))
         | Some embeddedWallet \<Rightarrow> (s3, AwaitingDelegate cl embeddedWallet))"

text \<open>Lines 111 to 118: the await of the watcher's promise comes back.\<close>

definition init_resume_watcher ::
  "closure \<Rightarrow> promise_id \<Rightarrow> provider_state \<Rightarrow> provider_state \<times> call_state" where
  "init_resume_watcher cl p s =
     (if p < length (promises s) then
        (case promises s ! p of
           Pending \<Rightarrow> (s, AwaitingWatcher cl p)
         | Fulfilled \<Rightarrow> init_after_wait cl s
         | Rejected err \<Rightarrow>
             (let s1 = s\<lparr>error := Some (message_or err ''Wallet creation timeout'')\<rparr>;
                  s2 = s1\<lparr>smartAccountStatus := Error\<rparr>
              in (s2, Completed (Inr None))))
      else (s, AwaitingWatcher cl p))"

definition initSmartAccount :: "closure \<Rightarrow> provider_state \<Rightarrow> provider_state \<times> call_state" where
  "initSmartAccount cl s =
     (if \<not> authenticated cl \<or> user cl = None then (s, Completed (Inr None))
      else
        (case (cl_smartAccountClient cl, cl_smartAccountAddress cl) of
           (Some client, Some addr) \<Rightarrow> (s, Completed (Inr (Some (client, addr))))
         | _ \<Rightarrow>
           (case walletReadyPromiseRef s of
              Some p \<Rightarrow> (s\<lparr>smartAccountStatus := Waiting_for_wallet\<rparr>, AwaitingWatcher cl p)
            | None \<Rightarrow> init_after_wait cl s)))"

text \<open>Calling the async function: its call joins the calls of the runtime.\<close>

definition spawn ::
  "(provider_state \<Rightarrow> provider_state \<times> call_state) \<Rightarrow> provider_state \<Rightarrow> provider_state" where
  "spawn f s = (let (s1, c) = f s in s1\<lparr>calls := calls s1 @ [c]\<rparr>)"

section \<open>retryWalletCreation (lines 238 to 254)\<close>

definition call_resolve :: "provider_state \<Rightarrow> provider_state" where
  "call_resolve s =
     (case walletReadyResolveRef s of
        Some p \<Rightarrow> s\<lparr>promises := settle p Fulfilled (promises s)\<rparr>
      | None \<Rightarrow> s)"

definition retryWalletCreation :: "closure \<Rightarrow> provider_state \<Rightarrow> provider_state" where
  "retryWalletCreation cl s =
     (let s1 = s\<lparr>error := None\<rparr>;
          s2 = clearWalletReadinessWatcher s1;
          hasPrivyWallet = list_ex isPrivyWallet (wallets cl)
      in if hasPrivyWallet then
           (let s3 = call_resolve s2;
                s4 = clearWalletReadinessWatcher s3
            in spawn (initSmartAccount cl) s4)
         else spawn (initSmartAccount cl) (createWalletReadinessWatcher s2))"

section \<open>The two effects (lines 257 to 288)\<close>

definition bootstrap_effect :: "closure \<Rightarrow> provider_state \<Rightarrow> provider_state" where
  "bootstrap_effect cl s =
     (if \<not> ready cl \<or> \<not> authenticated cl then
        (let s1 = clearWalletReadinessWatcher s;
             s2 = s1\<lparr>smartAccountStatus := Idle\<rparr>
         in s2\<lparr>effect_cleanup := False\<rparr>)
      else if list_ex isPrivyWallet (wallets cl) then
        (let s1 = call_resolve s;
             s2 = clearWalletReadinessWatcher s1
         in s2\<lparr>effect_cleanup := False\<rparr>)
      else if walletReadyPromiseRef s = None then
        (createWalletReadinessWatcher s)\<lparr>effect_cleanup := True\<rparr>
      else s\<lparr>effect_cleanup := False\<rparr>)"

text \<open>React runs the cleanup the previous run returned, then the effect.\<close>

definition run_cleanup :: "provider_state \<Rightarrow> provider_state" where
  "run_cleanup s =
     (if effect_cleanup s then (clearWalletReadinessWatcher s)\<lparr>effect_cleanup := False\<rparr> else s)"

definition auto_init_effect :: "closure \<Rightarrow> provider_state \<Rightarrow> provider_state" where
  "auto_init_effect cl s =
     (if ready cl \<and> authenticated cl \<and> wallets cl \<noteq> [] \<and> cl_smartAccountClient cl = None
         \<and> \<not> cl_isLoading cl
      then spawn (initSmartAccount cl) s else s)"

section \<open>The event loop\<close>

text \<open>A due timer fires if it has not been cleared: the runtime drops it and runs its callback.\<close>

definition fire :: "timer \<Rightarrow> provider_state \<Rightarrow> provider_state" where
  "fire t s =
     (if t \<in> set (timers s)
      then timeout_callback (timer_promise t) (s\<lparr>timers := clearTimeout (timer_id t) (timers s)\<rparr>)
      else s)"

definition advance :: "nat \<Rightarrow> provider_state \<Rightarrow> provider_state" where
  "advance dt s =
     (let s1 = s\<lparr>now := now s + dt\<rparr>
      in fold fire (filter (\<lambda>t. timer_deadline t \<le> now s1) (timers s1)) s1)"

definition resume :: "nat \<Rightarrow> delegate_io \<Rightarrow> provider_state \<Rightarrow> provider_state" where
  "resume c io s =
     (if c < length (calls s) then
        (case calls s ! c of
           AwaitingWatcher cl p \<Rightarrow>
             (let (s1, r) = init_resume_watcher cl p s in s1\<lparr>calls := (calls s1)[c := r]\<rparr>)
         | AwaitingDelegate cl w \<Rightarrow>
             (let (s1, r) = init_resume_delegate io s in s1\<lparr>calls := (calls s1)[c := r]\<rparr>)
         | Completed r \<Rightarrow> s)
      else s)"

text \<open>
  What can happen to the component: a render whose bootstrap effect runs (after the cleanup
  of its previous run), the unmount, the auto-initialise effect, a call of the two exported
  functions with the closure of some render, the clock moving on, and a suspended call
  coming back (with the delegate's answers, when it waits for the delegate).
\<close>

datatype event =
    Effect closure
  | Unmount
  | AutoInit closure
  | InitCall closure
  | Retry closure
  | Advance nat
  | Resume nat delegate_io

fun step :: "event \<Rightarrow> provider_state \<Rightarrow> provider_state" where
  "step (Effect cl) s = bootstrap_effect cl (run_cleanup s)"
| "step Unmount s = run_cleanup s"
| "step (AutoInit cl) s = auto_init_effect cl s"
| "step (InitCall cl) s = spawn (initSmartAccount cl) s"
| "step (Retry cl) s = retryWalletCreation cl s"
| "step (Advance dt) s = advance dt s"
| "step (Resume c io) s = resume c io s"

definition run :: "event list \<Rightarrow> provider_state \<Rightarrow> provider_state" where
  "run evs s = fold step evs s"

section \<open>Invariants of the watcher\<close>

text \<open>
  Either nothing is outstanding (no timer in the runtime, the three refs null), or exactly
  one timer is, and the three refs hold that timer's id and the pending promise it rejects.
\<close>

definition watcher_inv :: "provider_state \<Rightarrow> bool" where
  "watcher_inv s =
     ((timeoutIdRef s = None \<and> timers s = [] \<and> walletReadyPromiseRef s = None
        \<and> walletReadyResolveRef s = None)
      \<or> (\<exists>t. timers s = [t] \<and> timeoutIdRef s = Some (timer_id t)
            \<and> timer_id t < next_timer s
            \<and> walletReadyPromiseRef s = Some (timer_promise t)
            \<and> walletReadyResolveRef s = Some (timer_promise t)
            \<and> timer_promise t < length (promises s)
            \<and> promises s ! timer_promise t = Pending))"

text \<open>Two states that differ in the React state only.\<close>

definition same_watcher :: "provider_state \<Rightarrow> provider_state \<Rightarrow> bool" where
  "same_watcher s s' =
     (timeoutIdRef s' = timeoutIdRef s \<and> timers s' = timers s
      \<and> walletReadyPromiseRef s' = walletReadyPromiseRef s
      \<and> walletReadyResolveRef s' = walletReadyResolveRef s
      \<and> promises s' = promises s \<and> next_timer s' = next_timer s \<and> now s' = now s
      \<and> calls s' = calls s \<and> effect_cleanup s' = effect_cleanup s)"

text \<open>
  A call of initSmartAccount that waits for a promise nobody can settle any more: the call is
  suspended at line 112 on promise \<open>p\<close>, \<open>p\<close> is pending, and the resolver ref does not hold
  its \<open>resolve\<close>.
\<close>

definition stuck :: "nat \<Rightarrow> closure \<Rightarrow> promise_id \<Rightarrow> provider_state \<Rightarrow> bool" where
  "stuck c cl p s =
     (c < length (calls s) \<and> calls s ! c = AwaitingWatcher cl p
      \<and> p < length (promises s) \<and> promises s ! p = Pending
      \<and> walletReadyResolveRef s \<noteq> Some p)"

text \<open>
  Renders used in the executions below: a signed-in user whose only wallet is an external
  one, the same user once the embedded wallet is there, and the signed-out user.
\<close>

definition external_wallet_only :: closure where
  "external_wallet_only =
     \<lparr>ready = True, authenticated = True, user = Some ''did:privy:1'',
      wallets = [\<lparr>walletClientType = ''metamask'', address = ''0xabc''\<rparr>],
      cl_smartAccountClient = None, cl_smartAccountAddress = None, cl_isLoading = False\<rparr>"

definition privy_wallet_present :: closure where
  "privy_wallet_present =
     \<lparr>ready = True, authenticated = True, user = Some ''did:privy:1'',
      wallets = [\<lparr>walletClientType = ''metamask'', address = ''0xabc''\<rparr>,
                 \<lparr>walletClientType = ''privy'', address = ''0xdef''\<rparr>],
      cl_smartAccountClient = None, cl_smartAccountAddress = None, cl_isLoading = False\<rparr>"

definition logged_out :: closure where
  "logged_out =
     \<lparr>ready = True, authenticated = False, user = None, wallets = [],
      cl_smartAccountClient = None, cl_smartAccountAddress = None, cl_isLoading = False\<rparr>"

text \<open>
  The user signs in with an external wallet only (the bootstrap effect starts a watcher, the
  auto-initialise effect calls initSmartAccount, which waits for the watcher), then signs out.
\<close>

definition lost_authentication :: "event list" where
  "lost_authentication =
     [Effect external_wallet_only, AutoInit external_wallet_only, Effect logged_out]"

text \<open>
  A watcher is pending and a call waits for it; retryWalletCreation is then called from a
  render that has the embedded wallet.
\<close>

definition retry_with_wallet :: "event list" where
  "retry_with_wallet =
     [Effect external_wallet_only, AutoInit external_wallet_only, Retry privy_wallet_present]"

text \<open>A delegate whose every call succeeds.\<close>

definition delegate_ok :: delegate_io where
  "delegate_ok =
     \<lparr>createPublicClient_throws = None, getEthereumProvider_throws = None,
      eth_accounts = Inr (Some [''0x0123'']), createWalletClient_throws = None,
      toSimpleSmartAccount = Inr ''0x5afe'', createPimlicoClient_throws = None,
      createSmartAccountClient = Inr 7\<rparr>"

text \<open>
  A whole session: the user signs in with the embedded wallet, the auto-initialise effect
  calls initSmartAccount, the delegate succeeds; then the user signs out.
\<close>

definition session_then_sign_out :: "event list" where
  "session_then_sign_out =
     [Effect privy_wallet_present, AutoInit privy_wallet_present, Resume 0 delegate_ok,
      Effect logged_out]"

definition embedded_type_wallet :: closure where
  "embedded_type_wallet =
     \<lparr>ready = True, authenticated = True, user = Some ''did:privy:1'',
      wallets = [\<lparr>walletClientType = ''embedded'', address = ''0xdef''\<rparr>],
      cl_smartAccountClient = None, cl_smartAccountAddress = None, cl_isLoading = False\<rparr>"





text \<open>
  The signed-in part of that session: the state holds the handle and the user is still
  signed in.
\<close>

definition session_ready :: "event list" where
  "session_ready =
     [Effect privy_wallet_present, AutoInit privy_wallet_present, Resume 0 delegate_ok]"

text \<open>The render of a state in which another user has signed in with an embedded wallet.\<close>

definition second_user :: "provider_state \<Rightarrow> closure" where
  "second_user s =
     render True True (Some ''did:privy:2'')
       [\<lparr>walletClientType = ''privy'', address = ''0x222''\<rparr>] s"




section \<open>generateCoinSalt (client/src/lib/gasless-deployment.ts, lines 64 to 70)\<close>

text \<open>
  A JavaScript string is a sequence of UTF-16 code units; \<open>split('')\<close> yields them one by one
  and \<open>charCodeAt(0)\<close> reads each as a number below 65536.
\<close>

type_synonym js_string = "16 word list"

definition utf16 :: "string \<Rightarrow> js_string" where
  "utf16 s = map (\<lambda>c. of_nat (of_char c)) s"

text \<open>
  The accumulator of the reduce is a JavaScript number. As long as it is an integer below
  \<open>2 ^ 53\<close> in magnitude it is exact, and it is modelled as an \<open>int\<close>. The operator \<open><<\<close> first
  takes its left operand to a signed 32-bit integer and wraps its result to one; the
  subtraction and the addition around it are ordinary number arithmetic and do not wrap.
\<close>

definition ToInt32 :: "int \<Rightarrow> int" where
  "ToInt32 x = (x + 2 ^ 31) mod 2 ^ 32 - 2 ^ 31"

definition shift_left_5 :: "int \<Rightarrow> int" where
  "shift_left_5 acc = ToInt32 (ToInt32 acc * 32)"

definition hash_step :: "16 word \<Rightarrow> int \<Rightarrow> int" where
  "hash_step char acc = (shift_left_5 acc - acc) + uint char"

definition string_hash :: "js_string \<Rightarrow> int" where
  "string_hash s = fold hash_step s 0"

definition hex_digit :: "nat \<Rightarrow> char" where
  "hex_digit d = ''0123456789abcdef'' ! d"

text \<open>\<open>toString(16)\<close> of a non-negative integer.\<close>

fun toString16 :: "nat \<Rightarrow> string" where
  "toString16 n =
     (if n < 16 then [hex_digit n] else toString16 (n div 16) @ [hex_digit (n mod 16)])"

definition padStart :: "nat \<Rightarrow> char \<Rightarrow> string \<Rightarrow> string" where
  "padStart targetLength c s = replicate (targetLength - length s) c @ s"

text \<open>\<open>date_now\<close> is what \<open>Date.now()\<close> returns: the milliseconds since the epoch.\<close>

definition generateCoinSalt ::
  "nat \<Rightarrow> js_string \<Rightarrow> js_string \<Rightarrow> js_string \<Rightarrow> js_string \<Rightarrow> string" where
  "generateCoinSalt date_now creator name symbol metadataUri =
     (let timestamp = padStart 16 (CHR ''0'') (toString16 date_now);
          hash = string_hash (creator @ name @ symbol @ metadataUri)
      in ''0x'' @ timestamp @ padStart 48 (CHR ''0'') (toString16 (nat \<bar>hash\<bar>)))"

definition example_creator :: js_string where
  "example_creator = utf16 ''0xf25af781c4F1Df40Ac1D06e6B80c17815AD311F7''"

section \<open>What the watcher's functions do to each field\<close>

lemma clear_fields [simp]:
  "timeoutIdRef (clearWalletReadinessWatcher s) = None"
  "walletReadyPromiseRef (clearWalletReadinessWatcher s) = None"
  "walletReadyResolveRef (clearWalletReadinessWatcher s) = None"
  "timers (clearWalletReadinessWatcher s) =
     (case timeoutIdRef s of None \<Rightarrow> timers s | Some tid \<Rightarrow> clearTimeout tid (timers s))"
  "promises (clearWalletReadinessWatcher s) = promises s"
  "next_timer (clearWalletReadinessWatcher s) = next_timer s"
  "now (clearWalletReadinessWatcher s) = now s"
  "calls (clearWalletReadinessWatcher s) = calls s"
  "effect_cleanup (clearWalletReadinessWatcher s) = effect_cleanup s"
  "smartAccountStatus (clearWalletReadinessWatcher s) = smartAccountStatus s"
  "error (clearWalletReadinessWatcher s) = error s"
  "isLoading (clearWalletReadinessWatcher s) = isLoading s"
  "smartAccountClient (clearWalletReadinessWatcher s) = smartAccountClient s"
  "smartAccountAddress (clearWalletReadinessWatcher s) = smartAccountAddress s"
  by (simp_all add: clearWalletReadinessWatcher_def split: option.split)

lemma inv_clear_any:
  "timeoutIdRef s = None \<and> timers s = [] \<or> (\<exists>t. timers s = [t] \<and> timeoutIdRef s = Some (timer_id t))
   \<Longrightarrow> watcher_inv (clearWalletReadinessWatcher s)"
  by (auto simp: watcher_inv_def clearTimeout_def)

lemma inv_clear: "watcher_inv s \<Longrightarrow> watcher_inv (clearWalletReadinessWatcher s)"
  by (rule inv_clear_any) (auto simp: watcher_inv_def)


lemma create_fields [simp]:
  "timeoutIdRef (createWalletReadinessWatcher s) = Some (next_timer s)"
  "walletReadyPromiseRef (createWalletReadinessWatcher s) = Some (length (promises s))"
  "walletReadyResolveRef (createWalletReadinessWatcher s) = Some (length (promises s))"
  "timers (createWalletReadinessWatcher s) =
     timers (clearWalletReadinessWatcher s) @
       [\<lparr>timer_id = next_timer s, timer_deadline = now s + WALLET_READY_TIMEOUT,
         timer_promise = length (promises s)\<rparr>]"
  "promises (createWalletReadinessWatcher s) = promises s @ [Pending]"
  "next_timer (createWalletReadinessWatcher s) = next_timer s + 1"
  "now (createWalletReadinessWatcher s) = now s"
  "calls (createWalletReadinessWatcher s) = calls s"
  "effect_cleanup (createWalletReadinessWatcher s) = effect_cleanup s"
  "smartAccountStatus (createWalletReadinessWatcher s) = Waiting_for_wallet"
  "error (createWalletReadinessWatcher s) = error s"
  "isLoading (createWalletReadinessWatcher s) = isLoading s"
  "smartAccountClient (createWalletReadinessWatcher s) = smartAccountClient s"
  "smartAccountAddress (createWalletReadinessWatcher s) = smartAccountAddress s"
  by (simp_all add: createWalletReadinessWatcher_def Let_def)

lemma timeout_callback_fields [simp]:
  "timeoutIdRef (timeout_callback p s) = None"
  "walletReadyPromiseRef (timeout_callback p s) = None"
  "walletReadyResolveRef (timeout_callback p s) = None"
  "timers (timeout_callback p s) = timers (clearWalletReadinessWatcher s)"
  "promises (timeout_callback p s) = settle p (Rejected (ErrorObj timeout_message)) (promises s)"
  "next_timer (timeout_callback p s) = next_timer s"
  "now (timeout_callback p s) = now s"
  "calls (timeout_callback p s) = calls s"
  "effect_cleanup (timeout_callback p s) = effect_cleanup s"
  "smartAccountStatus (timeout_callback p s) = Error"
  "error (timeout_callback p s) = Some timeout_message"
  "isLoading (timeout_callback p s) = isLoading s"
  "smartAccountClient (timeout_callback p s) = smartAccountClient s"
  "smartAccountAddress (timeout_callback p s) = smartAccountAddress s"
  by (simp_all add: timeout_callback_def Let_def split: option.split)

lemma call_resolve_fields [simp]:
  "timeoutIdRef (call_resolve s) = timeoutIdRef s"
  "walletReadyPromiseRef (call_resolve s) = walletReadyPromiseRef s"
  "walletReadyResolveRef (call_resolve s) = walletReadyResolveRef s"
  "timers (call_resolve s) = timers s"
  "promises (call_resolve s) =
     (case walletReadyResolveRef s of None \<Rightarrow> promises s
      | Some p \<Rightarrow> settle p Fulfilled (promises s))"
  "next_timer (call_resolve s) = next_timer s"
  "now (call_resolve s) = now s"
  "calls (call_resolve s) = calls s"
  "effect_cleanup (call_resolve s) = effect_cleanup s"
  "smartAccountStatus (call_resolve s) = smartAccountStatus s"
  "error (call_resolve s) = error s"
  "isLoading (call_resolve s) = isLoading s"
  "smartAccountClient (call_resolve s) = smartAccountClient s"
  "smartAccountAddress (call_resolve s) = smartAccountAddress s"
  by (simp_all add: call_resolve_def split: option.split)

lemma length_settle [simp]: "length (settle p st ps) = length ps"
  by (simp add: settle_def)

lemma settle_other: "q \<noteq> p \<Longrightarrow> settle p st ps ! q = ps ! q"
  by (simp add: settle_def)


lemma inv_create: "watcher_inv s \<Longrightarrow> watcher_inv (createWalletReadinessWatcher s)"
  by (auto simp: watcher_inv_def clearTimeout_def nth_append)

lemma inv_resolve_clear:
  "watcher_inv s \<Longrightarrow> watcher_inv (clearWalletReadinessWatcher (call_resolve s))"
  by (rule inv_clear_any) (auto simp: watcher_inv_def)

lemma inv_fire: "watcher_inv s \<Longrightarrow> watcher_inv (fire t s)"
proof (cases "t \<in> set (timers s)")
  case False
  assume "watcher_inv s"
  with False show ?thesis by (simp add: fire_def)
next
  case True
  assume "watcher_inv s"
  with True have ts: "timers s = [t]" and ref: "timeoutIdRef s = Some (timer_id t)"
    by (auto simp: watcher_inv_def)
  show ?thesis
    by (simp add: fire_def True watcher_inv_def ts ref clearTimeout_def)
qed

lemma inv_fold_fire: "watcher_inv s \<Longrightarrow> watcher_inv (fold fire ts s)"
  by (induction ts arbitrary: s) (simp_all add: inv_fire)

lemma inv_frame:
  "timeoutIdRef s' = timeoutIdRef s \<Longrightarrow> timers s' = timers s \<Longrightarrow>
   walletReadyPromiseRef s' = walletReadyPromiseRef s \<Longrightarrow>
   walletReadyResolveRef s' = walletReadyResolveRef s \<Longrightarrow>
   promises s' = promises s \<Longrightarrow> next_timer s' = next_timer s \<Longrightarrow>
   watcher_inv s' = watcher_inv s"
  by (simp add: watcher_inv_def)

lemma inv_advance: "watcher_inv s \<Longrightarrow> watcher_inv (advance dt s)"
proof -
  assume "watcher_inv s"
  then have "watcher_inv (s\<lparr>now := now s + dt\<rparr>)" by (simp add: watcher_inv_def)
  then show ?thesis unfolding advance_def Let_def by (rule inv_fold_fire)
qed


lemma same_after_wait: "same_watcher s (fst (init_after_wait cl s))"
  by (simp add: same_watcher_def init_after_wait_def init_finally_def Let_def split: option.split)

lemma same_resume_watcher: "same_watcher s (fst (init_resume_watcher cl p s))"
  using same_after_wait [of s cl]
  by (simp add: same_watcher_def init_resume_watcher_def Let_def split: promise_state.split)

lemma same_initSmartAccount: "same_watcher s (fst (initSmartAccount cl s))"
  using same_after_wait [of s cl]
  by (simp add: same_watcher_def initSmartAccount_def split: option.split prod.split)

lemma same_resume_delegate:
  "same_watcher s (fst (init_resume_delegate io s))
   \<or> same_watcher (clearWalletReadinessWatcher s) (fst (init_resume_delegate io s))"
  by (simp add: same_watcher_def init_resume_delegate_def init_try_delegate_def init_catch_def
      init_finally_def Let_def split: sum.split prod.split)

lemma inv_same: "same_watcher s s' \<Longrightarrow> watcher_inv s \<Longrightarrow> watcher_inv s'"
  by (simp add: same_watcher_def watcher_inv_def)

lemma inv_set_calls: "watcher_inv s \<Longrightarrow> watcher_inv (s\<lparr>calls := cs\<rparr>)"
  by (simp add: watcher_inv_def)

lemma spawn_alt:
  "spawn f s = (fst (f s))\<lparr>calls := calls (fst (f s)) @ [snd (f s)]\<rparr>"
  by (simp add: spawn_def split: prod.split)

lemma resume_alt:
  "resume c io s =
     (if c < length (calls s) then
        (case calls s ! c of
           AwaitingWatcher cl p \<Rightarrow>
             (fst (init_resume_watcher cl p s))
               \<lparr>calls := (calls (fst (init_resume_watcher cl p s)))[c := snd (init_resume_watcher cl p s)]\<rparr>
         | AwaitingDelegate cl w \<Rightarrow>
             (fst (init_resume_delegate io s))
               \<lparr>calls := (calls (fst (init_resume_delegate io s)))[c := snd (init_resume_delegate io s)]\<rparr>
         | Completed r \<Rightarrow> s)
      else s)"
  by (simp add: resume_def split: prod.split call_state.split)

lemma inv_spawn_init: "watcher_inv s \<Longrightarrow> watcher_inv (spawn (initSmartAccount cl) s)"
  using inv_same [OF same_initSmartAccount [of s cl]]
  by (simp add: spawn_alt inv_set_calls)

lemma inv_resume: "watcher_inv s \<Longrightarrow> watcher_inv (resume c io s)"
proof -
  assume a: "watcher_inv s"
  have w: "watcher_inv (fst (init_resume_watcher cl p s))" for cl p
    using a same_resume_watcher by (rule inv_same [rotated])
  have d: "watcher_inv (fst (init_resume_delegate io s))"
    using same_resume_delegate [of s io] a inv_clear [OF a] inv_same by blast
  show ?thesis
    using a w d by (simp add: resume_alt inv_set_calls split: call_state.split)
qed

lemma inv_set_cleanup: "watcher_inv s \<Longrightarrow> watcher_inv (s\<lparr>effect_cleanup := b\<rparr>)"
  by (simp add: watcher_inv_def)

lemma inv_set_status: "watcher_inv s \<Longrightarrow> watcher_inv (s\<lparr>smartAccountStatus := b\<rparr>)"
  by (simp add: watcher_inv_def)

lemma inv_set_error: "watcher_inv s \<Longrightarrow> watcher_inv (s\<lparr>error := b\<rparr>)"
  by (simp add: watcher_inv_def)

lemma inv_run_cleanup: "watcher_inv s \<Longrightarrow> watcher_inv (run_cleanup s)"
  by (simp add: run_cleanup_def inv_clear inv_set_cleanup)

lemma inv_bootstrap: "watcher_inv s \<Longrightarrow> watcher_inv (bootstrap_effect cl s)"
  by (simp add: bootstrap_effect_def Let_def inv_clear inv_create inv_resolve_clear
      inv_set_cleanup inv_set_status)

lemma inv_retry: "watcher_inv s \<Longrightarrow> watcher_inv (retryWalletCreation cl s)"
proof -
  assume a: "watcher_inv s"
  then have b: "watcher_inv (clearWalletReadinessWatcher (s\<lparr>error := None\<rparr>))"
    by (simp add: inv_clear inv_set_error)
  show ?thesis unfolding retryWalletCreation_def Let_def
    by (simp add: b inv_spawn_init inv_create inv_resolve_clear)
qed

lemma inv_step: "watcher_inv s \<Longrightarrow> watcher_inv (step e s)"
  by (cases e)
    (simp_all add: inv_bootstrap inv_run_cleanup inv_spawn_init inv_retry inv_advance
      inv_resume auto_init_effect_def)

lemma inv_initial: "watcher_inv initial_state"
  by (simp add: watcher_inv_def initial_state_def)

lemma inv_run: "watcher_inv s \<Longrightarrow> watcher_inv (run evs s)"
  unfolding run_def by (induction evs arbitrary: s) (simp_all add: inv_step)


text \<open>
  C1. For every sequence of renders, unmounts, calls of initSmartAccount and
  retryWalletCreation, clock advances and resumed calls, at most one watcher is outstanding:
  either the runtime holds no timer and the three refs are null, or it holds exactly one
  timer, whose id is in timeoutIdRef and whose promise is the one in walletReadyPromiseRef
  and walletReadyResolveRef. After createWalletReadinessWatcher the only timer of the runtime
  is the new one: the previous watcher's timer is gone and cannot fire.
\<close>

theorem at_most_one_watcher:
  "(let s = run evs initial_state in
      (timers s = [] \<and> timeoutIdRef s = None \<and> walletReadyPromiseRef s = None
         \<and> walletReadyResolveRef s = None)
      \<or> (\<exists>t. timers s = [t] \<and> timeoutIdRef s = Some (timer_id t)
            \<and> walletReadyPromiseRef s = Some (timer_promise t)
            \<and> walletReadyResolveRef s = Some (timer_promise t)))
   \<and> (let s = run evs initial_state in
        timers (createWalletReadinessWatcher s) =
          [\<lparr>timer_id = next_timer s, timer_deadline = now s + WALLET_READY_TIMEOUT,
            timer_promise = length (promises s)\<rparr>])"
proof -
  have inv: "watcher_inv (run evs initial_state)"
    by (rule inv_run [OF inv_initial])
  have "timers (clearWalletReadinessWatcher (run evs initial_state)) = []"
    using inv_clear [OF inv] by (auto simp: watcher_inv_def)
  with inv show ?thesis
    unfolding Let_def by (auto simp: watcher_inv_def)
qed

section \<open>A discarded promise is never settled\<close>

lemma stuck_clear: "stuck c cl p s \<Longrightarrow> stuck c cl p (clearWalletReadinessWatcher s)"
  by (simp add: stuck_def)

lemma stuck_create: "stuck c cl p s \<Longrightarrow> stuck c cl p (createWalletReadinessWatcher s)"
  by (simp add: stuck_def nth_append)

lemma stuck_resolve_clear:
  "stuck c cl p s \<Longrightarrow> stuck c cl p (clearWalletReadinessWatcher (call_resolve s))"
  by (auto simp: stuck_def settle_other split: option.split)

lemma stuck_fire: "watcher_inv s \<Longrightarrow> stuck c cl p s \<Longrightarrow> stuck c cl p (fire t s)"
proof (cases "t \<in> set (timers s)")
  case False
  assume "stuck c cl p s"
  with False show ?thesis by (simp add: fire_def)
next
  case True
  assume inv: "watcher_inv s" and st: "stuck c cl p s"
  from inv True have "walletReadyResolveRef s = Some (timer_promise t)"
    by (auto simp: watcher_inv_def)
  with st have "timer_promise t \<noteq> p" by (auto simp: stuck_def)
  with st show ?thesis
    by (simp add: fire_def True stuck_def settle_other)
qed

lemma stuck_fold_fire:
  "watcher_inv s \<Longrightarrow> stuck c cl p s \<Longrightarrow> stuck c cl p (fold fire ts s)"
  by (induction ts arbitrary: s) (simp_all add: inv_fire stuck_fire)

lemma stuck_advance: "watcher_inv s \<Longrightarrow> stuck c cl p s \<Longrightarrow> stuck c cl p (advance dt s)"
proof -
  assume "watcher_inv s" and "stuck c cl p s"
  then have "watcher_inv (s\<lparr>now := now s + dt\<rparr>)" and "stuck c cl p (s\<lparr>now := now s + dt\<rparr>)"
    by (simp_all add: watcher_inv_def stuck_def)
  then show ?thesis unfolding advance_def Let_def by (rule stuck_fold_fire)
qed

lemma stuck_same: "same_watcher s s' \<Longrightarrow> stuck c cl p s \<Longrightarrow> stuck c cl p s'"
  by (simp add: same_watcher_def stuck_def)

lemma stuck_append: "stuck c cl p s \<Longrightarrow> stuck c cl p (s\<lparr>calls := calls s @ [x]\<rparr>)"
  by (simp add: stuck_def nth_append)

lemma stuck_other: "stuck c cl p s \<Longrightarrow> c' \<noteq> c \<Longrightarrow> stuck c cl p (s\<lparr>calls := (calls s)[c' := x]\<rparr>)"
  by (simp add: stuck_def)

lemma stuck_set_field:
  "stuck c cl p s \<Longrightarrow> stuck c cl p (s\<lparr>effect_cleanup := b\<rparr>)"
  "stuck c cl p s \<Longrightarrow> stuck c cl p (s\<lparr>smartAccountStatus := st\<rparr>)"
  "stuck c cl p s \<Longrightarrow> stuck c cl p (s\<lparr>error := e\<rparr>)"
  by (simp_all add: stuck_def)

lemma stuck_spawn_init: "stuck c cl p s \<Longrightarrow> stuck c cl p (spawn (initSmartAccount cl') s)"
  using stuck_same [OF same_initSmartAccount [of s cl']]
  by (simp add: spawn_alt stuck_append)

lemma pending_resume_watcher:
  "p < length (promises s) \<Longrightarrow> promises s ! p = Pending \<Longrightarrow>
   init_resume_watcher cl p s = (s, AwaitingWatcher cl p)"
  by (simp add: init_resume_watcher_def)

lemma stuck_resume: "stuck c cl p s \<Longrightarrow> stuck c cl p (resume c' io s)"
proof (cases "c' = c")
  case True
  assume st: "stuck c cl p s"
  then have "init_resume_watcher cl p s = (s, AwaitingWatcher cl p)"
    by (simp add: stuck_def pending_resume_watcher)
  with st True show ?thesis by (simp add: resume_alt stuck_def)
next
  case False
  assume st: "stuck c cl p s"
  have w: "stuck c cl p (fst (init_resume_watcher cl' p' s))" for cl' p'
    using same_resume_watcher st by (rule stuck_same)
  have d: "stuck c cl p (fst (init_resume_delegate io s))"
    using same_resume_delegate [of s io] st stuck_clear [OF st] stuck_same by blast
  show ?thesis
    using st w d False by (simp add: resume_alt stuck_other split: call_state.split)
qed

lemma stuck_run_cleanup: "stuck c cl p s \<Longrightarrow> stuck c cl p (run_cleanup s)"
  by (simp add: run_cleanup_def stuck_clear stuck_set_field)

lemma stuck_bootstrap: "stuck c cl p s \<Longrightarrow> stuck c cl p (bootstrap_effect cl' s)"
  by (simp add: bootstrap_effect_def Let_def stuck_clear stuck_create stuck_resolve_clear
      stuck_set_field)

lemma stuck_retry: "stuck c cl p s \<Longrightarrow> stuck c cl p (retryWalletCreation cl' s)"
proof -
  assume a: "stuck c cl p s"
  then have b: "stuck c cl p (clearWalletReadinessWatcher (s\<lparr>error := None\<rparr>))"
    by (simp add: stuck_clear stuck_set_field)
  show ?thesis unfolding retryWalletCreation_def Let_def
    by (simp add: b stuck_spawn_init stuck_create stuck_resolve_clear)
qed

lemma stuck_step: "watcher_inv s \<Longrightarrow> stuck c cl p s \<Longrightarrow> stuck c cl p (step e s)"
  by (cases e)
    (simp_all add: stuck_bootstrap stuck_run_cleanup stuck_spawn_init stuck_retry stuck_advance
      stuck_resume auto_init_effect_def)

lemma stuck_run: "watcher_inv s \<Longrightarrow> stuck c cl p s \<Longrightarrow> stuck c cl p (run evs s)"
  unfolding run_def by (induction evs arbitrary: s) (simp_all add: inv_step stuck_step)


lemmas eval_defs = run_def initial_state_def
  bootstrap_effect_def run_cleanup_def auto_init_effect_def spawn_def initSmartAccount_def
  init_after_wait_def init_finally_def isPrivyWallet_def retryWalletCreation_def call_resolve_def
  createWalletReadinessWatcher_def clearWalletReadinessWatcher_def clearTimeout_def settle_def
  Let_def

lemma lost_authentication_stuck:
  "stuck 0 external_wallet_only 0 (run lost_authentication initial_state)"
  by (simp add: stuck_def lost_authentication_def run_def bootstrap_effect_def run_cleanup_def
      auto_init_effect_def spawn_alt initSmartAccount_def isPrivyWallet_def
      external_wallet_only_def logged_out_def initial_state_def)

text \<open>
  C9. There is an execution in which a call of initSmartAccount never completes. The user
  signs in with an external wallet only, so the bootstrap effect starts a watcher and the
  call made by the auto-initialise effect waits for its promise; the user signs out, and the
  effect calls clearWalletReadinessWatcher, which cancels the timer and drops the resolver
  without settling the promise. Whatever happens afterwards, the promise is still pending
  and the call is still suspended at its await.
\<close>

theorem await_never_resumed:
  "(let s = run evs (run lost_authentication initial_state) in
      0 < length (calls s) \<and> calls s ! 0 = AwaitingWatcher external_wallet_only 0
      \<and> promises s ! 0 = Pending)"
proof -
  have "watcher_inv (run lost_authentication initial_state)"
    by (rule inv_run [OF inv_initial])
  then have "stuck 0 external_wallet_only 0 (run evs (run lost_authentication initial_state))"
    using lost_authentication_stuck by (rule stuck_run)
  then show ?thesis by (simp add: stuck_def)
qed

lemma retry_with_wallet_stuck:
  "stuck 0 external_wallet_only 0 (run retry_with_wallet initial_state)"
  by (simp add: stuck_def retry_with_wallet_def run_def bootstrap_effect_def run_cleanup_def
      auto_init_effect_def spawn_alt initSmartAccount_def isPrivyWallet_def
      retryWalletCreation_def init_after_wait_def
      external_wallet_only_def privy_wallet_present_def initial_state_def)

text \<open>
  C7, at the failing input. A watcher is pending, a call of initSmartAccount waits for it, and
  retryWalletCreation is called with the embedded wallet in the wallet list. Line 241 has
  already nulled walletReadyResolveRef when line 246 calls it, so nothing is resolved: the
  watcher's promise stays pending and the waiting call stays suspended, whatever happens
  afterwards. The rest of the claim holds there: the error is cleared, no watcher is left,
  and the call that retry makes goes to initializing and on to the delegate.
\<close>

theorem retry_does_not_resolve_watcher:
  "(let s = run retry_with_wallet initial_state in
      promises s = [Pending] \<and> calls s ! 0 = AwaitingWatcher external_wallet_only 0
      \<and> error s = None \<and> timers s = [] \<and> walletReadyPromiseRef s = None
      \<and> smartAccountStatus s = Initializing
      \<and> calls s ! 1 = AwaitingDelegate privy_wallet_present
                         \<lparr>walletClientType = ''privy'', address = ''0xdef''\<rparr>)
   \<and> (let s = run evs (run retry_with_wallet initial_state) in
        calls s ! 0 = AwaitingWatcher external_wallet_only 0 \<and> promises s ! 0 = Pending)"
proof -
  have "watcher_inv (run retry_with_wallet initial_state)"
    by (rule inv_run [OF inv_initial])
  then have "stuck 0 external_wallet_only 0 (run evs (run retry_with_wallet initial_state))"
    using retry_with_wallet_stuck by (rule stuck_run)
  then have later: "calls (run evs (run retry_with_wallet initial_state)) ! 0
        = AwaitingWatcher external_wallet_only 0
      \<and> promises (run evs (run retry_with_wallet initial_state)) ! 0 = Pending"
    by (simp add: stuck_def)
  have "(let s = run retry_with_wallet initial_state in
      promises s = [Pending] \<and> calls s ! 0 = AwaitingWatcher external_wallet_only 0
      \<and> error s = None \<and> timers s = [] \<and> walletReadyPromiseRef s = None
      \<and> smartAccountStatus s = Initializing
      \<and> calls s ! 1 = AwaitingDelegate privy_wallet_present
                         \<lparr>walletClientType = ''privy'', address = ''0xdef''\<rparr>)"
    by (simp add: retry_with_wallet_def run_def bootstrap_effect_def run_cleanup_def
      auto_init_effect_def spawn_alt initSmartAccount_def isPrivyWallet_def
      retryWalletCreation_def init_after_wait_def clearTimeout_def
      external_wallet_only_def privy_wallet_present_def initial_state_def)
  with later show ?thesis by (simp add: Let_def)
qed

section \<open>The cached handle\<close>

lemma session_then_sign_out_state:
  "smartAccountClient (run session_then_sign_out initial_state) = Some 7"
  "smartAccountAddress (run session_then_sign_out initial_state) = Some ''0x5afe''"
  "smartAccountStatus (run session_then_sign_out initial_state) = Idle"
  "error (run session_then_sign_out initial_state) = None"
  by (simp_all add: session_then_sign_out_def run_def bootstrap_effect_def run_cleanup_def
      auto_init_effect_def spawn_alt resume_alt initSmartAccount_def isPrivyWallet_def
      init_after_wait_def init_resume_delegate_def init_try_delegate_def init_finally_def
      delegate_steps_def delegate_ok_def
      privy_wallet_present_def logged_out_def initial_state_def)

lemma session_ready_state:
  "smartAccountClient (run session_ready initial_state) = Some 7"
  "smartAccountAddress (run session_ready initial_state) = Some ''0x5afe''"
  "smartAccountStatus (run session_ready initial_state) = Ready"
  "walletReadyPromiseRef (run session_ready initial_state) = None"
  by (simp_all add: session_ready_def run_def bootstrap_effect_def run_cleanup_def
      auto_init_effect_def spawn_alt resume_alt initSmartAccount_def isPrivyWallet_def
      init_after_wait_def init_resume_delegate_def init_try_delegate_def init_finally_def
      delegate_steps_def delegate_ok_def privy_wallet_present_def initial_state_def)

text \<open>
  C3, as stated, at a concrete input. The state holds a handle. initSmartAccount reads the
  handle from its closure (line 102), not from the state: called through the callback of the
  earlier render, whose closure holds no handle yet, it goes to the delegate a second time.
  And the check of line 96 comes first: called from the render in which the hooks report
  the user signed out, it returns null.
\<close>

theorem cached_handle_closure_counterexample:
  "(let s = run session_ready initial_state
    in smartAccountClient s = Some 7 \<and> smartAccountAddress s = Some ''0x5afe''
       \<and> snd (initSmartAccount privy_wallet_present s)
            = AwaitingDelegate privy_wallet_present
                \<lparr>walletClientType = ''privy'', address = ''0xdef''\<rparr>
       \<and> initSmartAccount (render True False None [] s) s = (s, Completed (Inr None)))"
  by (simp add: Let_def session_ready_state initSmartAccount_def init_after_wait_def
      isPrivyWallet_def render_def privy_wallet_present_def)

text \<open>
  C3, amended. Whenever initSmartAccount is called with a closure that holds a handle and an
  authenticated user, in whatever state, it returns the closure's handle at once and changes
  nothing; called twice, both calls complete with the same handle, neither is ever suspended
  on the delegate, and the state is as before but for the two completed calls. The closure
  of a render of a state that holds the handle is such a closure.
\<close>

theorem cached_handle_fast_path:
  assumes "authenticated cl" and "user cl = Some u"
    and "cl_smartAccountClient cl = Some client" and "cl_smartAccountAddress cl = Some addr"
  shows "initSmartAccount cl s = (s, Completed (Inr (Some (client, addr))))
         \<and> (let s1 = spawn (initSmartAccount cl) s;
                 s2 = spawn (initSmartAccount cl) s1
             in calls s2 = calls s @ [Completed (Inr (Some (client, addr))),
                                      Completed (Inr (Some (client, addr)))]
                \<and> s2\<lparr>calls := calls s\<rparr> = s)
         \<and> (smartAccountClient s = Some client \<and> smartAccountAddress s = Some addr \<longrightarrow>
              initSmartAccount (render r True (Some u) ws s) s
                = (s, Completed (Inr (Some (client, addr)))))"
proof -
  have one: "initSmartAccount cl s' = (s', Completed (Inr (Some (client, addr))))" for s'
    using assms by (simp add: initSmartAccount_def)
  have three: "smartAccountClient s = Some client \<and> smartAccountAddress s = Some addr \<longrightarrow>
              initSmartAccount (render r True (Some u) ws s) s
                = (s, Completed (Inr (Some (client, addr))))"
    by (simp add: initSmartAccount_def render_def)
  show ?thesis
    using three by (simp add: one spawn_def Let_def)
qed

theorem cached_handle_fast_path_witness:
  "(let s = run session_ready initial_state;
        cl = render True True (Some ''did:privy:1'') (wallets privy_wallet_present) s
    in authenticated cl \<and> user cl = Some ''did:privy:1''
       \<and> cl_smartAccountClient cl = Some 7 \<and> cl_smartAccountAddress cl = Some ''0x5afe''
       \<and> initSmartAccount cl s = (s, Completed (Inr (Some (7, ''0x5afe''))))
       \<and> initSmartAccount cl initial_state
            = (initial_state, Completed (Inr (Some (7, ''0x5afe'')))))"
proof -
  define cl where "cl = render True True (Some ''did:privy:1'') (wallets privy_wallet_present)
      (run session_ready initial_state)"
  have h: "authenticated cl" "user cl = Some ''did:privy:1''"
    "cl_smartAccountClient cl = Some 7" "cl_smartAccountAddress cl = Some ''0x5afe''"
    by (simp_all add: cl_def render_def session_ready_state)
  have s: "smartAccountClient (run session_ready initial_state) = Some 7
      \<and> smartAccountAddress (run session_ready initial_state) = Some ''0x5afe''"
    by (simp add: session_ready_state)
  show ?thesis
    using h s cached_handle_fast_path [OF h, of "run session_ready initial_state"]
      cached_handle_fast_path [OF h, of initial_state]
    by (simp add: Let_def cl_def [symmetric])
qed

text \<open>
  C5, at the failing input. A user with a handle signs out: the bootstrap effect clears the
  watcher and sets the status to idle, and smartAccountClient and smartAccountAddress are
  still those of the session that ended. Another user signs in with an embedded wallet of
  their own: the auto-initialise effect (line 285) does nothing because smartAccountClient
  is not null, the status stays idle, and a call of initSmartAccount completes at once with
  the client and address built for the previous user.
\<close>

theorem handle_served_to_next_user:
  "(let s = run session_then_sign_out initial_state;
        s' = step (AutoInit (second_user s)) (step (Effect (second_user s)) s)
    in smartAccountClient s = Some 7 \<and> smartAccountAddress s = Some ''0x5afe''
       \<and> smartAccountStatus s = Idle
       \<and> calls s' = calls s \<and> smartAccountStatus s' = Idle
       \<and> smartAccountClient s' = Some 7 \<and> smartAccountAddress s' = Some ''0x5afe''
       \<and> step (InitCall (second_user s')) s'
            = s'\<lparr>calls := calls s' @ [Completed (Inr (Some (7, ''0x5afe'')))]\<rparr>)"
proof -
  define s where "s = run session_then_sign_out initial_state"
  have f: "smartAccountClient s = Some 7" "smartAccountAddress s = Some ''0x5afe''"
    "smartAccountStatus s = Idle"
    by (simp_all add: s_def session_then_sign_out_state)
  define s' where "s' = step (AutoInit (second_user s)) (step (Effect (second_user s)) s)"
  have g: "calls s' = calls s" "smartAccountStatus s' = Idle"
    "smartAccountClient s' = Some 7" "smartAccountAddress s' = Some ''0x5afe''"
    using f
    by (simp_all add: s'_def second_user_def render_def auto_init_effect_def
        bootstrap_effect_def run_cleanup_def isPrivyWallet_def)
  have "initSmartAccount (second_user s') s' = (s', Completed (Inr (Some (7, ''0x5afe''))))"
    using g by (simp add: initSmartAccount_def second_user_def render_def)
  then have h: "step (InitCall (second_user s')) s'
            = s'\<lparr>calls := calls s' @ [Completed (Inr (Some (7, ''0x5afe'')))]\<rparr>"
    by (simp add: spawn_def)
  from f g h show ?thesis
    unfolding Let_def s_def [symmetric] s'_def [symmetric] by blast
qed

section \<open>Which wallet is the embedded wallet\<close>

text \<open>
  C6, as stated, at a concrete input. The only wallet has walletClientType "embedded":
  initSmartAccount finds no embedded wallet and returns null with the status
  waiting_for_wallet, retryWalletCreation starts a watcher, and so does the bootstrap effect.
\<close>

theorem embedded_literal_counterexample:
  "initSmartAccount embedded_type_wallet initial_state
     = (initial_state\<lparr>smartAccountStatus := Waiting_for_wallet\<rparr>, Completed (Inr None))
   \<and> walletReadyPromiseRef (retryWalletCreation embedded_type_wallet initial_state) = Some 0
   \<and> walletReadyPromiseRef (bootstrap_effect embedded_type_wallet initial_state) = Some 0"
  by (simp add: initSmartAccount_def init_after_wait_def init_finally_def isPrivyWallet_def
      retryWalletCreation_def bootstrap_effect_def spawn_alt
      embedded_type_wallet_def initial_state_def)

text \<open>
  C6, amended. In the three places the wallet is selected by walletClientType = "privy".
  initSmartAccount (authenticated, no handle, no watcher) goes on to the delegate with the
  first wallet of that type and returns null when there is none; retryWalletCreation leaves
  a watcher behind exactly when no wallet has that type; the bootstrap effect of a ready and
  authenticated render leaves no watcher behind exactly when some wallet has that type.
\<close>

theorem privy_wallet_selected:
  assumes "ready cl" and "authenticated cl" and "user cl = Some u"
    and "cl_smartAccountClient cl = None" and "walletReadyPromiseRef s = None"
  shows "snd (initSmartAccount cl s)
           = (case find (\<lambda>w. walletClientType w = ''privy'') (wallets cl) of
                None \<Rightarrow> Completed (Inr None)
              | Some w \<Rightarrow> AwaitingDelegate cl w)
         \<and> (walletReadyPromiseRef (retryWalletCreation cl s0) = None
              \<longleftrightarrow> (\<exists>w \<in> set (wallets cl). walletClientType w = ''privy''))
         \<and> (walletReadyPromiseRef (bootstrap_effect cl s0) = None
              \<longleftrightarrow> (\<exists>w \<in> set (wallets cl). walletClientType w = ''privy''))"
proof -
  have p: "isPrivyWallet = (\<lambda>w. walletClientType w = ''privy'')"
    by (rule ext) (simp add: isPrivyWallet_def)
  have i: "snd (initSmartAccount cl s)
           = (case find (\<lambda>w. walletClientType w = ''privy'') (wallets cl) of
                None \<Rightarrow> Completed (Inr None)
              | Some w \<Rightarrow> AwaitingDelegate cl w)"
    using assms by (simp add: initSmartAccount_def init_after_wait_def p split: option.split)
  have w: "walletReadyPromiseRef (spawn (initSmartAccount cl) s') = walletReadyPromiseRef s'" for s'
    using same_initSmartAccount [of s' cl] by (simp add: spawn_alt same_watcher_def)
  have r: "walletReadyPromiseRef (retryWalletCreation cl s0) = None
              \<longleftrightarrow> (\<exists>w \<in> set (wallets cl). walletClientType w = ''privy'')"
    by (simp add: retryWalletCreation_def Let_def w list_ex_iff p)
  have b: "walletReadyPromiseRef (bootstrap_effect cl s0) = None
              \<longleftrightarrow> (\<exists>w \<in> set (wallets cl). walletClientType w = ''privy'')"
    using assms by (auto simp: bootstrap_effect_def Let_def list_ex_iff p)
  from i r b show ?thesis by simp
qed

theorem privy_wallet_selected_witness:
  "snd (initSmartAccount privy_wallet_present initial_state)
     = AwaitingDelegate privy_wallet_present \<lparr>walletClientType = ''privy'', address = ''0xdef''\<rparr>
   \<and> walletReadyPromiseRef (retryWalletCreation privy_wallet_present initial_state) = None
   \<and> walletReadyPromiseRef (bootstrap_effect privy_wallet_present initial_state) = None"
proof -
  have a: "ready privy_wallet_present" "authenticated privy_wallet_present"
    "user privy_wallet_present = Some ''did:privy:1''"
    "cl_smartAccountClient privy_wallet_present = None"
    "walletReadyPromiseRef initial_state = None"
    by (simp_all add: privy_wallet_present_def initial_state_def)
  have w: "wallets privy_wallet_present =
      [\<lparr>walletClientType = ''metamask'', address = ''0xabc''\<rparr>,
       \<lparr>walletClientType = ''privy'', address = ''0xdef''\<rparr>]"
    by (simp add: privy_wallet_present_def)
  show ?thesis
    using privy_wallet_selected [OF a, of initial_state]
    by (simp add: w)
qed

section \<open>What the caller of initSmartAccount sees\<close>

text \<open>
  C8, as stated, at a concrete input. Called with no session, initSmartAccount returns null
  and writes nothing: the error stays null and the status stays idle. The result is the
  same null a signed-in user without an embedded wallet gets.
\<close>

theorem not_authenticated_silent_counterexample:
  "initSmartAccount logged_out initial_state = (initial_state, Completed (Inr None))
   \<and> error initial_state = None \<and> smartAccountStatus initial_state = Idle
   \<and> snd (initSmartAccount external_wallet_only initial_state) = Completed (Inr None)"
  by (simp add: initSmartAccount_def init_after_wait_def init_finally_def isPrivyWallet_def
      logged_out_def external_wallet_only_def initial_state_def)

text \<open>
  C8, amended. Called when the session is not authenticated or has no user, initSmartAccount
  returns null at once and leaves the whole state, status and error included, as it was.
\<close>

theorem not_authenticated_returns_null:
  assumes "\<not> authenticated cl \<or> user cl = None"
  shows "initSmartAccount cl s = (s, Completed (Inr None))"
  using assms by (auto simp: initSmartAccount_def)

theorem not_authenticated_returns_null_witness:
  "initSmartAccount logged_out (run session_then_sign_out initial_state)
     = (run session_then_sign_out initial_state, Completed (Inr None))"
proof -
  have "\<not> authenticated logged_out \<or> user logged_out = None"
    by (simp add: logged_out_def)
  then show ?thesis by (rule not_authenticated_returns_null)
qed





lemma calls_fire [simp]: "calls (fire t s) = calls s"
  by (simp add: fire_def)

lemma calls_fold_fire [simp]: "calls (fold fire ts s) = calls s"
  by (induction ts arbitrary: s) simp_all

lemma calls_advance [simp]: "calls (advance dt s) = calls s"
  by (simp add: advance_def)

lemma calls_run_cleanup [simp]: "calls (run_cleanup s) = calls s"
  by (simp add: run_cleanup_def)

lemma calls_bootstrap [simp]: "calls (bootstrap_effect cl s) = calls s"
  by (simp add: bootstrap_effect_def)












section \<open>The timeout\<close>






















section \<open>The salt is a bytes32 literal\<close>

declare toString16.simps [simp del]

lemma hex_digit_hex: "d < 16 \<Longrightarrow> hex_digit d \<in> set ''0123456789abcdef''"
proof -
  assume "d < 16"
  then have "d < length ''0123456789abcdef''" by simp
  then have "''0123456789abcdef'' ! d \<in> set ''0123456789abcdef''" by (rule nth_mem)
  then show ?thesis by (simp only: hex_digit_def)
qed

lemma toString16_hex: "c \<in> set (toString16 n) \<Longrightarrow> c \<in> set ''0123456789abcdef''"
proof (induction n rule: toString16.induct)
  case (1 n)
  show ?case
  proof (cases "n < 16")
    case True
    with "1.prems" have "c = hex_digit n" by (simp add: toString16.simps [of n])
    with True show ?thesis using hex_digit_hex by blast
  next
    case False
    with "1.prems" have "c \<in> set (toString16 (n div 16)) \<or> c = hex_digit (n mod 16)"
      by (auto simp: toString16.simps [of n])
    then show ?thesis
    proof
      assume "c \<in> set (toString16 (n div 16))"
      with False show ?thesis using "1.IH" by blast
    next
      assume "c = hex_digit (n mod 16)"
      moreover have "n mod 16 < 16" by simp
      ultimately show ?thesis using hex_digit_hex by blast
    qed
  qed
qed

lemma toString16_length: "n < 16 ^ Suc k \<Longrightarrow> length (toString16 n) \<le> Suc k"
proof (induction k arbitrary: n)
  case 0
  then show ?case by (simp add: toString16.simps [of n])
next
  case (Suc k)
  show ?case
  proof (cases "n < 16")
    case True
    then show ?thesis by (simp add: toString16.simps [of n])
  next
    case False
    from Suc.prems have "n div 16 < 16 ^ Suc k"
      by (simp add: less_mult_imp_div_less mult.commute)
    then have "length (toString16 (n div 16)) \<le> Suc k" by (rule Suc.IH)
    with False show ?thesis by (simp add: toString16.simps [of n])
  qed
qed

lemma padStart_length: "length s \<le> k \<Longrightarrow> length (padStart k c s) = k"
  by (simp add: padStart_def)

lemma padStart_set: "set (padStart k c s) \<subseteq> insert c (set s)"
  by (auto simp: padStart_def)

lemma ToInt32_range: "- (2 ^ 31) \<le> ToInt32 x \<and> ToInt32 x < 2 ^ 31"
proof -
  have "0 \<le> (x + 2 ^ 31) mod 2 ^ 32" and "(x + 2 ^ 31) mod 2 ^ 32 < (2 ^ 32 :: int)"
    by simp_all
  then show ?thesis by (simp add: ToInt32_def)
qed

lemma hash_step_bound: "\<bar>hash_step c acc\<bar> \<le> \<bar>acc\<bar> + 2147549183"
proof -
  have "- (2 ^ 31) \<le> shift_left_5 acc \<and> shift_left_5 acc < 2 ^ 31"
    unfolding shift_left_5_def by (rule ToInt32_range)
  then have s: "- 2147483648 \<le> shift_left_5 acc" "shift_left_5 acc < 2147483648"
    by simp_all
  have u: "uint c < 65536" using uint_bounded [of c] by simp
  have "0 \<le> uint c" by simp
  with s u show ?thesis unfolding hash_step_def by linarith
qed

lemma fold_hash_step_bound:
  "\<bar>fold hash_step s acc\<bar> \<le> \<bar>acc\<bar> + int (length s) * 2147549183"
proof (induction s arbitrary: acc)
  case Nil
  show ?case by simp
next
  case (Cons c s)
  have "\<bar>fold hash_step s (hash_step c acc)\<bar> \<le> \<bar>hash_step c acc\<bar> + int (length s) * 2147549183"
    by (rule Cons.IH)
  also have "\<dots> \<le> \<bar>acc\<bar> + 2147549183 + int (length s) * 2147549183"
    using hash_step_bound [of c acc] by simp
  finally show ?case by (simp add: algebra_simps)
qed

lemma string_hash_bound:
  assumes "length s \<le> 2 ^ 21"
  shows "\<bar>string_hash s\<bar> < 2 ^ 53"
proof -
  have "\<bar>string_hash s\<bar> \<le> int (length s) * 2147549183"
    using fold_hash_step_bound [of s 0] by (simp add: string_hash_def)
  also have "\<dots> \<le> 2 ^ 21 * 2147549183"
  proof -
    have "int (length s) \<le> int (2 ^ 21)" using assms by (simp only: of_nat_le_iff)
    then have "int (length s) \<le> 2 ^ 21" by simp
    then show ?thesis by (rule mult_right_mono) simp
  qed
  also have "\<dots> < (2 ^ 53 :: int)" by simp
  finally show ?thesis .
qed

lemma example_hash:
  "string_hash (example_creator @ utf16 ''Coin'' @ utf16 ''MYC'' @ utf16 ''ipfs://1'')
     = - 4763697075"
  by (simp add: string_hash_def example_creator_def utf16_def hash_step_def shift_left_5_def
      ToInt32_def)

text \<open>
  C10, as stated, at a concrete input. For a creator address, the name "Coin", the symbol
  "MYC" and the URI "ipfs://1" the hash is -4763697075: it is no 32-bit value, and its
  absolute value has nine hexadecimal digits before padding. Only the operand of the shift
  is wrapped to 32 bits; the accumulator itself is not.
\<close>

theorem hash_exceeds_32_bits_counterexample:
  "(let hash = string_hash (example_creator @ utf16 ''Coin'' @ utf16 ''MYC'' @ utf16 ''ipfs://1'')
    in hash = - 4763697075 \<and> 2 ^ 32 \<le> \<bar>hash\<bar>
       \<and> toString16 (nat \<bar>hash\<bar>) = ''11bf03fb3''
       \<and> length (toString16 (nat \<bar>hash\<bar>)) = 9)"
  by (simp add: example_hash toString16.simps hex_digit_def)

text \<open>
  C10, amended. For every time \<open>Date.now()\<close> can return and every creator, name, symbol and
  metadata URI of at most \<open>2 ^ 21\<close> code units together, generateCoinSalt returns "0x"
  followed by exactly 64 hexadecimal digits: 16 digits of timestamp and 48 digits of the
  absolute value of the hash. The hash is not a 32-bit value and may have more than 8
  digits before padding; it stays below \<open>2 ^ 53\<close> in magnitude, so the arithmetic is exact
  and the digits fit in the 48.
\<close>

theorem generateCoinSalt_bytes32:
  assumes "date_now < 16 ^ 16"
    and "length (creator @ name @ symbol @ metadataUri) \<le> 2 ^ 21"
  shows "\<exists>timestamp digits.
           generateCoinSalt date_now creator name symbol metadataUri
             = ''0x'' @ timestamp @ digits
           \<and> length timestamp = 16 \<and> length digits = 48
           \<and> set (timestamp @ digits) \<subseteq> set ''0123456789abcdef''
           \<and> \<bar>string_hash (creator @ name @ symbol @ metadataUri)\<bar> < 2 ^ 53"
proof -
  let ?h = "string_hash (creator @ name @ symbol @ metadataUri)"
  let ?t = "padStart 16 (CHR ''0'') (toString16 date_now)"
  let ?d = "padStart 48 (CHR ''0'') (toString16 (nat \<bar>?h\<bar>))"
  have hb: "\<bar>?h\<bar> < 2 ^ 53"
    using assms(2) by (rule string_hash_bound)
  have "date_now < 16 ^ Suc 15" using assms(1) by simp
  then have "length (toString16 date_now) \<le> 16"
    using toString16_length [of date_now 15] by simp
  then have lt: "length ?t = 16" by (rule padStart_length)
  have "nat \<bar>?h\<bar> < 2 ^ 53" using hb by (simp add: nat_less_iff)
  also have "(2 ^ 53 :: nat) < 16 ^ Suc 47" by simp
  finally have "length (toString16 (nat \<bar>?h\<bar>)) \<le> 48"
    using toString16_length [of "nat \<bar>?h\<bar>" 47] by simp
  then have ld: "length ?d = 48" by (rule padStart_length)
  have z: "CHR ''0'' \<in> set ''0123456789abcdef''" by simp
  have "set ?t \<subseteq> set ''0123456789abcdef''" and "set ?d \<subseteq> set ''0123456789abcdef''"
    using padStart_set [of 16 "CHR ''0''" "toString16 date_now"]
      padStart_set [of 48 "CHR ''0''" "toString16 (nat \<bar>?h\<bar>)"] z toString16_hex
    by blast+
  then have hex: "set (?t @ ?d) \<subseteq> set ''0123456789abcdef''"
    by (simp only: set_append Un_subset_iff)
  have "generateCoinSalt date_now creator name symbol metadataUri = ''0x'' @ ?t @ ?d"
    by (simp add: generateCoinSalt_def Let_def)
  with lt ld hex hb show ?thesis by blast
qed

theorem generateCoinSalt_bytes32_witness:
  "generateCoinSalt 1730000000000 example_creator (utf16 ''Coin'') (utf16 ''MYC'')
       (utf16 ''ipfs://1'')
     = ''0x'' @ ''00000192cc091400'' @ ''00000000000000000000000000000000000000011bf03fb3''
   \<and> length (generateCoinSalt 1730000000000 example_creator (utf16 ''Coin'') (utf16 ''MYC'')
       (utf16 ''ipfs://1'')) = 66"
proof -
  have a: "(1730000000000 :: nat) < 16 ^ 16" by simp
  have b: "length (example_creator @ utf16 ''Coin'' @ utf16 ''MYC'' @ utf16 ''ipfs://1'') \<le> 2 ^ 21"
    by (simp add: example_creator_def utf16_def)
  have t1: "toString16 1730000000000 = ''192cc091400''"
    by (simp add: toString16.simps hex_digit_def)
  have t2: "toString16 4763697075 = ''11bf03fb3''"
    by (simp add: toString16.simps hex_digit_def)
  have p1: "padStart 16 (CHR ''0'') ''192cc091400'' = ''00000192cc091400''"
    by (simp add: padStart_def numeral_eq_Suc)
  have p2: "padStart 48 (CHR ''0'') ''11bf03fb3''
      = ''00000000000000000000000000000000000000011bf03fb3''"
    by (simp add: padStart_def numeral_eq_Suc)
  have c: "generateCoinSalt 1730000000000 example_creator (utf16 ''Coin'') (utf16 ''MYC'')
       (utf16 ''ipfs://1'')
     = ''0x'' @ ''00000192cc091400'' @ ''00000000000000000000000000000000000000011bf03fb3''"
    by (simp add: generateCoinSalt_def example_hash t1 t2 p1 p2)
  from generateCoinSalt_bytes32 [OF a b] obtain timestamp digits where
    "generateCoinSalt 1730000000000 example_creator (utf16 ''Coin'') (utf16 ''MYC'')
       (utf16 ''ipfs://1'') = ''0x'' @ timestamp @ digits"
    "length timestamp = 16" "length digits = 48"
    by blast
  then have "length (generateCoinSalt 1730000000000 example_creator (utf16 ''Coin'')
      (utf16 ''MYC'') (utf16 ''ipfs://1'')) = 66"
    by simp
  with c show ?thesis by simp
qed

end
